theory Spec2Isabelle
  imports Complex_Main
begin

section \<open>Numeric values\<close>

text \<open>
  Prices are the \<open>Close\<close> column after \<open>dropna()\<close>: finite numbers, modelled as reals
  (rounding of float64 arithmetic is outside this model).  A computed statistic can also
  be \<open>nan\<close> (numpy's mean and std of an empty slice) and a quotient can be infinite
  (a nonzero number divided by zero), so computed values are an \<open>npfloat\<close>.
\<close>

datatype npfloat = Finite real | Infty | NaN

text \<open>\<open>np.mean(window)\<close>: the arithmetic mean; \<open>nan\<close> for an empty window.\<close>

definition np_mean :: "real list \<Rightarrow> npfloat" where
  "np_mean w = (if w = [] then NaN else Finite (sum_list w / real (length w)))"

text \<open>\<open>np.std(window)\<close> (ddof = 0): \<open>sqrt(mean(abs(x - x.mean())**2))\<close>.\<close>

definition np_std :: "real list \<Rightarrow> npfloat" where
  "np_std w =
     (if w = [] then NaN
      else Finite (sqrt (sum_list (map (\<lambda>x. \<bar>x - sum_list w / real (length w)\<bar>\<^sup>2) w)
                         / real (length w))))"

text \<open>\<open>prices[i] - mean\<close>, with a finite price on the left.\<close>

fun np_sub :: "real \<Rightarrow> npfloat \<Rightarrow> npfloat" where
  "np_sub p (Finite m) = Finite (p - m)"
| "np_sub p Infty = Infty"
| "np_sub p NaN = NaN"

text \<open>Float division: dividing by zero yields an infinity, or \<open>nan\<close> for \<open>0 / 0\<close>.\<close>

fun np_divide :: "npfloat \<Rightarrow> npfloat \<Rightarrow> npfloat" where
  "np_divide (Finite a) (Finite b) =
     (if b = 0 then (if a = 0 then NaN else Infty) else Finite (a / b))"
| "np_divide Infty (Finite b) = Infty"
| "np_divide (Finite a) Infty = Finite 0"
| "np_divide _ _ = NaN"

text \<open>\<open>abs(z_score) > threshold\<close>: false for \<open>nan\<close>, true for an infinity.\<close>

fun abs_gt :: "npfloat \<Rightarrow> real \<Rightarrow> bool" where
  "abs_gt (Finite z) t = (t < \<bar>z\<bar>)"
| "abs_gt Infty t = True"
| "abs_gt NaN t = False"

text \<open>Python's \<open>xs[a:b]\<close> for indices \<open>0 \<le> a\<close>, \<open>0 \<le> b\<close>.\<close>

definition py_slice :: "'a list \<Rightarrow> nat \<Rightarrow> nat \<Rightarrow> 'a list" where
  "py_slice xs a b = drop a (take b xs)"

section \<open>AnomalyDetector (anomaly\_detector.py)\<close>

subsection \<open>z\_score\_detection\<close>

text \<open>
  The body of the loop at index \<open>i\<close>: the window, its mean and standard deviation and
  the local variable \<open>z_score\<close>.
\<close>

definition z_score_body :: "nat \<Rightarrow> real list \<Rightarrow> nat \<Rightarrow> npfloat \<times> npfloat \<times> npfloat" where
  "z_score_body window_size prices i =
     (let window = py_slice prices (i - window_size) i;
          mean = np_mean window;
          std = np_std window;
          z_score = (if std = Finite 0 then Finite 0
                     else np_divide (np_sub (prices ! i) mean) std)
      in (mean, std, z_score))"

text \<open>
  One iteration: \<open>means[i] = mean\<close>, \<open>stds[i] = std\<close>,
  \<open>anomalies[i] = abs(z_score) > threshold\<close> (a bool stored in a float array).
\<close>

definition z_score_step ::
  "nat \<Rightarrow> real \<Rightarrow> real list \<Rightarrow> nat \<Rightarrow>
   real list \<times> npfloat list \<times> npfloat list \<Rightarrow> real list \<times> npfloat list \<times> npfloat list" where
  "z_score_step window_size threshold prices i arrays =
     (case arrays of (anomalies, means, stds) \<Rightarrow>
        (case z_score_body window_size prices i of (mean, std, z_score) \<Rightarrow>
           (anomalies[i := of_bool (abs_gt z_score threshold)],
            means[i := mean],
            stds[i := std])))"

text \<open>
  The three arrays start as \<open>np.zeros_like(prices)\<close>; the loop runs over
  \<open>range(window_size, len(prices))\<close>.
\<close>

definition z_score_detection ::
  "nat \<Rightarrow> real \<Rightarrow> real list \<Rightarrow> real list \<times> npfloat list \<times> npfloat list" where
  "z_score_detection window_size threshold prices =
     fold (z_score_step window_size threshold prices)
          [window_size ..< length prices]
          (map (\<lambda>_. 0) prices, map (\<lambda>_. Finite 0) prices, map (\<lambda>_. Finite 0) prices)"

subsection \<open>isolation\_forest\_detection\<close>

datatype error =
    ValueError string
  | KeyError string
  | NotFittedError
  | FitFailure string

text \<open>
  sklearn's IsolationForest is an external library, taken as a parameter.  \<open>fit\<close> draws
  random numbers and may raise, so it reads and advances a state \<open>'g\<close> of the outside
  world; \<open>predict\<close> scores each sample on its own and answers \<open>-1\<close> (outlier) or \<open>1\<close>.
\<close>

record ('m, 'g) sklearn =
  fit :: "'g \<Rightarrow> real \<Rightarrow> real list \<Rightarrow> (error + 'm) \<times> 'g"
  predict_one :: "'m \<Rightarrow> real \<Rightarrow> int"

text \<open>
  An \<open>IsolationForest\<close> object: its contamination and, once \<open>fit\<close> has returned, the
  fitted estimator.
\<close>

datatype 'm forest = Forest real "'m option"

text \<open>
  The detector's mutable state: the dict \<open>self.models\<close>, the outside world, and the
  trace of the calls made to \<open>fit\<close> (contamination and training data of each call).
\<close>

record ('m, 'g) detector =
  models :: "real list \<rightharpoonup> 'm forest"
  world :: 'g
  fit_calls :: "(real \<times> real list) list"

text \<open>\<open>model.predict(X)\<close>; sklearn raises NotFittedError on an unfitted estimator.\<close>

fun forest_predict :: "('m, 'g) sklearn \<Rightarrow> 'm forest \<Rightarrow> real list \<Rightarrow> error + int list" where
  "forest_predict sk (Forest c None) X = Inl NotFittedError"
| "forest_predict sk (Forest c (Some m)) X = Inr (map (predict_one sk m) X)"

text \<open>\<open>(preds == -1).astype(int)\<close>\<close>

definition outlier_flags :: "int list \<Rightarrow> int list" where
  "outlier_flags preds = map (\<lambda>p. if p = - 1 then 1 else 0) preds"

text \<open>
  The last two statements of the function: look the model up under the key and predict
  over the whole input.
\<close>

definition predict_cached ::
  "('m, 'g) sklearn \<Rightarrow> ('m, 'g) detector \<Rightarrow> real list \<Rightarrow> real list \<Rightarrow>
   (error + int list) \<times> ('m, 'g) detector" where
  "predict_cached sk st model_key prices =
     (case models st model_key of
        None \<Rightarrow> (Inl (KeyError ''model_key''), st)
      | Some f \<Rightarrow>
          (case forest_predict sk f prices of
             Inl e \<Rightarrow> (Inl e, st)
           | Inr preds \<Rightarrow> (Inr (outlier_flags preds), st)))"

definition isolation_forest_detection ::
  "('m, 'g) sklearn \<Rightarrow> nat \<Rightarrow> ('m, 'g) detector \<Rightarrow> real list \<Rightarrow>
   (error + int list) \<times> ('m, 'g) detector" where
  "isolation_forest_detection sk window_size st prices =
     (if length prices < window_size * 2 then (Inr (map (\<lambda>_. 0) prices), st)
      else
        let model_key = take window_size prices in
        if model_key \<notin> dom (models st) then
          let st1 = st\<lparr>models := (models st)(model_key \<mapsto> Forest 0.05 None),
                       fit_calls := fit_calls st @ [(0.05, take window_size prices)]\<rparr>
          in (case fit sk (world st) 0.05 (take window_size prices) of
                (Inl e, g) \<Rightarrow> (Inl e, st1\<lparr>world := g\<rparr>)
              | (Inr m, g) \<Rightarrow>
                  predict_cached sk
                    (st1\<lparr>models := (models st1)(model_key \<mapsto> Forest 0.05 (Some m)),
                         world := g\<rparr>)
                    model_key prices)
        else predict_cached sk st model_key prices)"

subsection \<open>detect\<close>

text \<open>A row of the result frame; \<open>Mean\<close> and \<open>Std\<close> are \<open>nan\<close> for the isolation method.\<close>

record row =
  Time :: int
  Close :: real
  Mean :: npfloat
  Std :: npfloat
  Method :: string
  Anomaly :: bool

text \<open>
  The final loop of \<open>detect\<close>: one row per index whose entry of \<open>anomalies\<close> is truthy.
\<close>

definition build_results ::
  "string \<Rightarrow> int list \<Rightarrow> real list \<Rightarrow> bool list \<Rightarrow> npfloat list \<Rightarrow> npfloat list \<Rightarrow> row list" where
  "build_results method timestamps prices anomalies means stds =
     concat (map (\<lambda>i.
        if anomalies ! i then
          [\<lparr>Time = timestamps ! i,
            Close = prices ! i,
            Mean = (if method = ''zscore'' then means ! i else NaN),
            Std = (if method = ''zscore'' then stds ! i else NaN),
            Method = method,
            Anomaly = True\<rparr>]
        else []) [0 ..< length prices])"

text \<open>
  The data frame is its index (the timestamps) paired with the \<open>Close\<close> column.  The
  result is \<open>None\<close>, a frame of rows, or an exception; the detector state is returned
  as the call leaves it.
\<close>

definition detect ::
  "('m, 'g) sklearn \<Rightarrow> nat \<Rightarrow> real \<Rightarrow> ('m, 'g) detector \<Rightarrow> (int \<times> real) list \<Rightarrow> string \<Rightarrow>
   (error + row list option) \<times> ('m, 'g) detector" where
  "detect sk window_size threshold st data method =
     (if length data < window_size then (Inr None, st)
      else
        let prices = map snd data; timestamps = map fst data in
        if method = ''zscore'' then
          (case z_score_detection window_size threshold prices of
             (anomalies, means, stds) \<Rightarrow>
               (Inr (Some (build_results method timestamps prices
                             (map (\<lambda>a. a \<noteq> 0) anomalies) means stds)), st))
        else if method = ''isolation'' then
          (case isolation_forest_detection sk window_size st prices of
             (Inl e, st') \<Rightarrow> (Inl e, st')
           | (Inr anomalies, st') \<Rightarrow>
               (Inr (Some (build_results method timestamps prices
                             (map (\<lambda>a. a \<noteq> 0) anomalies)
                             (map (\<lambda>_. Finite 0) prices) (map (\<lambda>_. Finite 0) prices))), st'))
        else (Inl (ValueError (''Unknown method: '' @ method)), st))"

section \<open>StockMonitor (main.py)\<close>

subsection \<open>update\_history\<close>

text \<open>
  \<open>drop_duplicates(subset=['Time'])\<close> with pandas' default \<open>keep='first'\<close>: a row is
  dropped when an earlier row has its \<open>Time\<close>; the rows kept stay in their order.
\<close>

fun drop_duplicates_from :: "int list \<Rightarrow> row list \<Rightarrow> row list" where
  "drop_duplicates_from seen [] = []"
| "drop_duplicates_from seen (r # rs) =
     (if Time r \<in> set seen then drop_duplicates_from seen rs
      else r # drop_duplicates_from (Time r # seen) rs)"

definition drop_duplicates :: "row list \<Rightarrow> row list" where
  "drop_duplicates rs = drop_duplicates_from [] rs"

text \<open>
  \<open>self.history\<close> is a dict from ticker to frame; \<open>self.history[ticker]\<close> raises
  KeyError for a ticker that is not a key.
\<close>

definition update_history ::
  "(string \<rightharpoonup> row list) \<Rightarrow> string \<Rightarrow> row list option \<Rightarrow> error + (string \<rightharpoonup> row list)" where
  "update_history history ticker new_data =
     (case new_data of
        None \<Rightarrow> Inr history
      | Some d \<Rightarrow>
          if d = [] then Inr history
          else (case history ticker of
                  None \<Rightarrow> Inl (KeyError ticker)
                | Some old \<Rightarrow> Inr (history(ticker \<mapsto> drop_duplicates (old @ d)))))"

subsection \<open>The body of the monitoring loop for one ticker\<close>

text \<open>\<open>DataFetcher.validate_data\<close>; the fetched frame always has the \<open>Close\<close> column.\<close>

definition validate_data :: "(int \<times> real) list option \<Rightarrow> bool" where
  "validate_data data = (case data of None \<Rightarrow> False | Some d \<Rightarrow> d \<noteq> [])"

text \<open>
  What the monitor hands to the alert manager: the console alert, then the e-mail alert
  with the ticker's history (the e-mail code catches its own exceptions).
\<close>

datatype alert = ConsoleAlert string row | EmailAlert string row "row list"

record ('m, 'g) monitor_state =
  history :: "string \<rightharpoonup> row list"
  detector_state :: "('m, 'g) detector"
  alerts :: "alert list"
  error_log :: "(string \<times> error) list"

text \<open>The alert block for one result frame: nothing for \<open>None\<close> or an empty frame.\<close>

definition process_alerts ::
  "string \<Rightarrow> row list option \<Rightarrow> row list \<Rightarrow> alert list" where
  "process_alerts ticker results hist =
     (case results of
        None \<Rightarrow> []
      | Some rs \<Rightarrow>
          if rs = [] then []
          else [ConsoleAlert ticker (last rs), EmailAlert ticker (last rs) hist])"

text \<open>
  The \<open>try\<close> block for one ticker, with the fetch result as input (\<open>None\<close> when the fetch
  failed).  An exception keeps every mutation made before it and is logged by the
  \<open>except Exception\<close> clause.
\<close>

definition process_ticker ::
  "('m, 'g) sklearn \<Rightarrow> nat \<Rightarrow> real \<Rightarrow> ('m, 'g) monitor_state \<Rightarrow> string \<Rightarrow>
   (int \<times> real) list option \<Rightarrow> ('m, 'g) monitor_state" where
  "process_ticker sk window_size threshold st ticker fetched =
     (if \<not> validate_data fetched then st
      else
        let data = (case fetched of Some d \<Rightarrow> d | None \<Rightarrow> []) in
        case detect sk window_size threshold (detector_state st) data ''zscore'' of
          (Inl e, d1) \<Rightarrow>
            st\<lparr>detector_state := d1, error_log := error_log st @ [(ticker, e)]\<rparr>
        | (Inr zscore_results, d1) \<Rightarrow>
            (case detect sk window_size threshold d1 data ''isolation'' of
               (Inl e, d2) \<Rightarrow>
                 st\<lparr>detector_state := d2, error_log := error_log st @ [(ticker, e)]\<rparr>
             | (Inr isolation_results, d2) \<Rightarrow>
                 (case update_history (history st) ticker zscore_results of
                    Inl e \<Rightarrow>
                      st\<lparr>detector_state := d2, error_log := error_log st @ [(ticker, e)]\<rparr>
                  | Inr h1 \<Rightarrow>
                      (case update_history h1 ticker isolation_results of
                         Inl e \<Rightarrow>
                           st\<lparr>history := h1, detector_state := d2,
                              error_log := error_log st @ [(ticker, e)]\<rparr>
                       | Inr h2 \<Rightarrow>
                           (let hist = (case h2 ticker of Some h \<Rightarrow> h | None \<Rightarrow> [])
                            in st\<lparr>history := h2, detector_state := d2,
                                  alerts := alerts st
                                    @ process_alerts ticker zscore_results hist
                                    @ process_alerts ticker isolation_results hist\<rparr>)))))"

section \<open>StockMonitor (stock\_anomaly\_detector.py)\<close>

record data_point =
  dp_Close :: real
  dp_Mean :: npfloat
  dp_Std :: npfloat
  dp_Z_Score :: npfloat
  dp_Anomaly :: bool
  dp_Time :: int

text \<open>The body of the loop of \<open>detect_anomalies\<close> at index \<open>i\<close>.\<close>

definition detect_anomalies_body ::
  "nat \<Rightarrow> real \<Rightarrow> (int \<times> real) list \<Rightarrow> nat \<Rightarrow> data_point" where
  "detect_anomalies_body window_size threshold data i =
     (let close_prices = map snd data;
          window = py_slice close_prices (i - window_size) i;
          current_price = close_prices ! i;
          mean = np_mean window;
          std = np_std window;
          z_score = (if std = Finite 0 then Finite 0
                     else np_divide (np_sub current_price mean) std);
          is_anomaly = abs_gt z_score threshold
      in \<lparr>dp_Close = current_price, dp_Mean = mean, dp_Std = std, dp_Z_Score = z_score,
          dp_Anomaly = is_anomaly, dp_Time = fst (data ! i)\<rparr>)"

text \<open>The list \<open>anomalies\<close> after the loop over \<open>range(window_size, len(close_prices))\<close>.\<close>

definition detect_anomalies_loop ::
  "nat \<Rightarrow> real \<Rightarrow> (int \<times> real) list \<Rightarrow> data_point list" where
  "detect_anomalies_loop window_size threshold data =
     map (detect_anomalies_body window_size threshold data)
         [window_size ..< length data]"

text \<open>
  \<open>detect_anomalies\<close> on the fetched frame: \<open>None\<close> for a short frame; otherwise every
  evaluated point is appended to the ticker's history and the flagged ones are returned.
\<close>

definition detect_anomalies ::
  "nat \<Rightarrow> real \<Rightarrow> (string \<rightharpoonup> data_point list) \<Rightarrow> string \<Rightarrow> (int \<times> real) list \<Rightarrow>
   error + (data_point list option \<times> (string \<rightharpoonup> data_point list))" where
  "detect_anomalies window_size threshold hist ticker data =
     (if length data < window_size then Inr (None, hist)
      else
        let result_df = detect_anomalies_loop window_size threshold data in
        case hist ticker of
          None \<Rightarrow> Inl (KeyError ticker)
        | Some old \<Rightarrow>
            Inr (Some (filter dp_Anomaly result_df), hist(ticker \<mapsto> old @ result_df)))"

section \<open>Sequences of detector calls\<close>

text \<open>
  The detector state after a sequence of calls of \<open>isolation_forest_detection\<close>, whatever
  each call returns or raises, and the number of fits traced for a key.
\<close>

definition run_calls ::
  "('m, 'g) sklearn \<Rightarrow> nat \<Rightarrow> ('m, 'g) detector \<Rightarrow> real list list \<Rightarrow> ('m, 'g) detector" where
  "run_calls sk window_size st inputs =
     fold (\<lambda>prices s. snd (isolation_forest_detection sk window_size s prices)) inputs st"

definition fits_of :: "real list \<Rightarrow> ('m, 'g) detector \<Rightarrow> nat" where
  "fits_of key st = length (filter (\<lambda>c. snd c = key) (fit_calls st))"

section \<open>The z-score rule as the specification words it\<close>

text \<open>
  The trailing window of index \<open>i\<close>: the \<open>window_size\<close> prices at the indices
  \<open>i - window_size, \<dots>, i - 1\<close>; its mean and population standard deviation; the z-score,
  taken as zero when the standard deviation is zero; and the flagging rule.
\<close>

definition spec_window :: "nat \<Rightarrow> real list \<Rightarrow> nat \<Rightarrow> real list" where
  "spec_window window_size prices i = map (\<lambda>k. prices ! k) [i - window_size ..< i]"

definition spec_mean :: "real list \<Rightarrow> real" where
  "spec_mean w = (\<Sum>x\<leftarrow>w. x) / real (length w)"

definition spec_stddev :: "real list \<Rightarrow> real" where
  "spec_stddev w = sqrt ((\<Sum>x\<leftarrow>w. (x - spec_mean w)\<^sup>2) / real (length w))"

definition spec_zscore :: "real \<Rightarrow> real list \<Rightarrow> real" where
  "spec_zscore p w = (if spec_stddev w = 0 then 0 else (p - spec_mean w) / spec_stddev w)"

definition spec_flagged :: "nat \<Rightarrow> real \<Rightarrow> real list \<Rightarrow> nat \<Rightarrow> bool" where
  "spec_flagged window_size threshold prices i =
     (window_size \<le> i \<and> i < length prices \<and>
      threshold < \<bar>spec_zscore (prices ! i) (spec_window window_size prices i)\<bar>)"

section \<open>Result frames\<close>

text \<open>The rows of a result of \<open>detect\<close>: none for \<open>None\<close>.\<close>

definition frame_rows :: "row list option \<Rightarrow> row list" where
  "frame_rows frame = (case frame of None \<Rightarrow> [] | Some rs \<Rightarrow> rs)"

section \<open>Concrete inputs\<close>

text \<open>
  A stand-in for the library, used to evaluate the model on concrete inputs: the fitted
  model is the sum of the training prices and a price above it is an outlier; the first
  \<open>fit\<close> of a process whose world starts at \<open>0\<close> fails.
\<close>

definition stub_sklearn :: "(real, nat) sklearn" where
  "stub_sklearn =
     \<lparr>fit = (\<lambda>g c X. (if g = 0 then Inl (FitFailure ''out of memory'') else Inr (sum_list X), Suc g)),
      predict_one = (\<lambda>m x. if m < x then - 1 else 1)\<rparr>"

definition fresh_detector :: "nat \<Rightarrow> (real, nat) detector" where
  "fresh_detector g = \<lparr>models = Map.empty, world = g, fit_calls = []\<rparr>"

definition row_at :: "int \<Rightarrow> real \<Rightarrow> row" where
  "row_at t c = \<lparr>Time = t, Close = c, Mean = NaN, Std = NaN, Method = ''isolation'', Anomaly = True\<rparr>"

text \<open>
  A monitor of the tickers X and Y with empty histories, and two batches with the same
  two leading prices.
\<close>

definition monitor0 :: "nat \<Rightarrow> (real, nat) monitor_state" where
  "monitor0 g = \<lparr>history = [''X'' \<mapsto> [], ''Y'' \<mapsto> []], detector_state = fresh_detector g,
                 alerts = [], error_log = []\<rparr>"

definition batch_x :: "(int \<times> real) list" where
  "batch_x = [(1, 10), (2, 10), (3, 10), (4, 10)]"

definition batch_y :: "(int \<times> real) list" where
  "batch_y = [(1, 10), (2, 10), (3, 10), (4, 500)]"

section \<open>Properties\<close>

lemma build_results_no_flags:
  "\<forall>i < length prices. \<not> anomalies ! i \<Longrightarrow>
   build_results method timestamps prices anomalies means stds = []"
  by (simp add: build_results_def)

lemma isolation_short:
  "length prices < window_size * 2 \<Longrightarrow>
   isolation_forest_detection sk window_size st prices = (Inr (map (\<lambda>_. 0) prices), st)"
  by (simp add: isolation_forest_detection_def)

text \<open>
  Claim C10.  When the frame has at least \<open>window_size\<close> rows and the method is neither
  \<open>'zscore'\<close> nor \<open>'isolation'\<close>, \<open>detect\<close> raises ValueError: no frame of anomaly rows
  is returned, and the detector state (the model cache included) is what it was.
\<close>

theorem detect_unknown_method:
  assumes "window_size \<le> length data" and "method \<noteq> ''zscore''" and "method \<noteq> ''isolation''"
  shows "detect sk window_size threshold st data method =
           (Inl (ValueError (''Unknown method: '' @ method)), st)"
  using assms by (simp add: detect_def)

theorem detect_unknown_method_witness:
  "(2::nat) \<le> length [(1::int, 10::real), (2, 10)] \<and> ''foo'' \<noteq> ''zscore'' \<and> ''foo'' \<noteq> ''isolation'' \<and>
   detect stub_sklearn 2 3 (fresh_detector 1) [(1, 10), (2, 10)] ''foo'' =
     (Inl (ValueError ''Unknown method: foo''), fresh_detector 1)"
  using detect_unknown_method [of 2 "[(1, 10), (2, 10)]" "''foo''" stub_sklearn 3 "fresh_detector 1"]
  by simp

text \<open>
  Claim C5.  A frame with fewer than \<open>window_size\<close> rows gives \<open>None\<close> on the z-score
  path, and a frame with fewer than \<open>2 * window_size\<close> rows gives \<open>None\<close> or an empty
  frame on the isolation path; neither raises, and the detector state is unchanged.
\<close>

theorem detect_insufficient_data:
  "(length data < window_size \<longrightarrow>
      detect sk window_size threshold st data ''zscore'' = (Inr None, st)) \<and>
   (length data < 2 * window_size \<longrightarrow>
      detect sk window_size threshold st data ''isolation'' =
        (Inr (if length data < window_size then None else Some []), st))"
  by (simp add: detect_def isolation_short build_results_no_flags)

theorem detect_insufficient_data_witness:
  "length [(1::int, 10::real), (2, 10), (3, 10)] < 4 \<and>
   detect stub_sklearn 4 3 (fresh_detector 1) [(1, 10), (2, 10), (3, 10)] ''zscore'' =
     (Inr None, fresh_detector 1) \<and>
   length [(1::int, 10::real), (2, 10), (3, 10)] < 2 * 2 \<and>
   detect stub_sklearn 2 3 (fresh_detector 1) [(1, 10), (2, 10), (3, 10)] ''isolation'' =
     (Inr (Some []), fresh_detector 1)"
  using detect_insufficient_data [of "[(1, 10), (2, 10), (3, 10)]" 4 stub_sklearn 3 "fresh_detector 1"]
        detect_insufficient_data [of "[(1, 10), (2, 10), (3, 10)]" 2 stub_sklearn 3 "fresh_detector 1"]
  by simp

lemma ddf_times:
  "set (map Time (drop_duplicates_from seen rs)) = set (map Time rs) - set seen"
  by (induction rs arbitrary: seen) auto

lemma ddf_mem_unseen:
  assumes "x \<in> set (drop_duplicates_from seen rs)"
  shows "Time x \<notin> set seen"
proof -
  have "Time x \<in> set (map Time (drop_duplicates_from seen rs))"
    using assms by simp
  then show ?thesis unfolding ddf_times by simp
qed

lemma ddf_distinct: "distinct (map Time (drop_duplicates_from seen rs))"
proof (induction rs arbitrary: seen)
  case Nil
  then show ?case by simp
next
  case (Cons r rs)
  have "Time r \<notin> Time ` set (drop_duplicates_from (Time r # seen) rs)"
  proof
    assume "Time r \<in> Time ` set (drop_duplicates_from (Time r # seen) rs)"
    then obtain x where x: "x \<in> set (drop_duplicates_from (Time r # seen) rs)"
      and eq: "Time r = Time x" by auto
    from x have "Time x \<notin> set (Time r # seen)" by (rule ddf_mem_unseen)
    with eq show False by simp
  qed
  then show ?case using Cons.IH by simp
qed

lemma ddf_seen_cong:
  "set seen = set seen' \<Longrightarrow> drop_duplicates_from seen rs = drop_duplicates_from seen' rs"
proof (induction rs arbitrary: seen seen')
  case Nil
  then show ?case by simp
next
  case (Cons r rs)
  have "set (Time r # seen) = set (Time r # seen')" using Cons.prems by simp
  then have "drop_duplicates_from (Time r # seen) rs = drop_duplicates_from (Time r # seen') rs"
    by (rule Cons.IH)
  moreover have "drop_duplicates_from seen rs = drop_duplicates_from seen' rs"
    using Cons.prems by (rule Cons.IH)
  ultimately show ?case using Cons.prems by simp
qed

lemma ddf_append:
  "drop_duplicates_from seen (xs @ ys) =
     drop_duplicates_from seen xs @ drop_duplicates_from (map Time xs @ seen) ys"
proof (induction xs arbitrary: seen)
  case Nil
  then show ?case by simp
next
  case (Cons x xs)
  show ?case
  proof (cases "Time x \<in> set seen")
    case True
    then have "set (map Time (x # xs) @ seen) = set (map Time xs @ seen)" by auto
    then have "drop_duplicates_from (map Time (x # xs) @ seen) ys =
               drop_duplicates_from (map Time xs @ seen) ys"
      by (rule ddf_seen_cong)
    then show ?thesis using True Cons.IH[of seen] by simp
  next
    case False
    have "set (map Time (x # xs) @ seen) = set (map Time xs @ Time x # seen)" by auto
    then have "drop_duplicates_from (map Time (x # xs) @ seen) ys =
               drop_duplicates_from (map Time xs @ Time x # seen) ys"
      by (rule ddf_seen_cong)
    then show ?thesis using False Cons.IH[of "Time x # seen"] by simp
  qed
qed

lemma ddf_all_seen:
  "set (map Time rs) \<subseteq> set seen \<Longrightarrow> drop_duplicates_from seen rs = []"
  by (induction rs arbitrary: seen) auto

lemma ddf_id:
  "distinct (map Time rs) \<Longrightarrow> set (map Time rs) \<inter> set seen = {} \<Longrightarrow>
   drop_duplicates_from seen rs = rs"
  by (induction rs arbitrary: seen) auto

lemma drop_duplicates_absorb:
  "drop_duplicates (drop_duplicates (old @ d) @ d) = drop_duplicates (old @ d)"
proof -
  let ?R = "drop_duplicates_from [] (old @ d)"
  have 1: "drop_duplicates_from [] ?R = ?R"
    by (rule ddf_id) (simp_all add: ddf_distinct)
  have "set (map Time d) \<subseteq> set (map Time ?R)"
    by (simp add: ddf_times del: set_map)
  then have 2: "drop_duplicates_from (map Time ?R) d = []"
    by (rule ddf_all_seen)
  have "drop_duplicates_from [] (?R @ d) =
          drop_duplicates_from [] ?R @ drop_duplicates_from (map Time ?R @ []) d"
    by (rule ddf_append)
  also have "\<dots> = ?R"
    by (simp only: append_Nil2 1 2)
  finally show ?thesis
    unfolding drop_duplicates_def .
qed

text \<open>
  Claim C8.  \<open>update_history\<close> is idempotent: when a call with a batch returns, a second
  call with the same batch leaves the history exactly as the first call left it, in
  content and in order.
\<close>

theorem update_history_idempotent:
  assumes "update_history h ticker new_data = Inr h1"
  shows "update_history h1 ticker new_data = Inr h1"
proof (cases new_data)
  case None
  then show ?thesis by (simp add: update_history_def)
next
  case (Some d)
  show ?thesis
  proof (cases "d = []")
    case True
    with Some show ?thesis by (simp add: update_history_def)
  next
    case False
    show ?thesis
    proof (cases "h ticker")
      case None
      with Some False assms show ?thesis by (simp add: update_history_def)
    next
      case (Some old)
      with \<open>new_data = Some d\<close> False assms
      have h1: "h1 = h(ticker \<mapsto> drop_duplicates (old @ d))"
        by (simp add: update_history_def)
      show ?thesis
        using \<open>new_data = Some d\<close> False
        by (simp add: update_history_def h1 drop_duplicates_absorb)
    qed
  qed
qed

theorem update_history_idempotent_witness:
  "update_history [''AAPL'' \<mapsto> [row_at 1 10]] ''AAPL'' (Some [row_at 1 11, row_at 2 12]) =
     Inr [''AAPL'' \<mapsto> [row_at 1 10, row_at 2 12]] \<and>
   update_history [''AAPL'' \<mapsto> [row_at 1 10, row_at 2 12]] ''AAPL'' (Some [row_at 1 11, row_at 2 12]) =
     Inr [''AAPL'' \<mapsto> [row_at 1 10, row_at 2 12]]"
proof -
  have h: "update_history [''AAPL'' \<mapsto> [row_at 1 10]] ''AAPL'' (Some [row_at 1 11, row_at 2 12]) =
     Inr [''AAPL'' \<mapsto> [row_at 1 10, row_at 2 12]]"
    by (simp add: update_history_def drop_duplicates_def row_at_def)
  show ?thesis using h update_history_idempotent [OF h] by simp
qed

lemma fold_update_length:
  "length (fold (\<lambda>i a. a[i := f i]) js xs) = length xs"
  by (induction js arbitrary: xs) simp_all

lemma fold_update_nth:
  "j < length xs \<Longrightarrow>
   fold (\<lambda>i a. a[i := f i]) js xs ! j = (if j \<in> set js then f j else xs ! j)"
proof (induction js arbitrary: xs rule: rev_induct)
  case Nil
  then show ?case by simp
next
  case (snoc k ks)
  have len: "j < length (fold (\<lambda>i a. a[i := f i]) ks xs)"
    using snoc.prems by (simp add: fold_update_length)
  show ?case
  proof (cases "j = k")
    case True
    with len show ?thesis by simp
  next
    case False
    with snoc show ?thesis by simp
  qed
qed

lemma z_score_fold_split:
  "fold (z_score_step ws thr p) js (a, m, s) =
     (fold (\<lambda>i a. a[i := of_bool (abs_gt (snd (snd (z_score_body ws p i))) thr)]) js a,
      fold (\<lambda>i m. m[i := fst (z_score_body ws p i)]) js m,
      fold (\<lambda>i s. s[i := fst (snd (z_score_body ws p i))]) js s)"
  by (induction js arbitrary: a m s) (simp_all add: z_score_step_def split: prod.splits)

lemma z_score_detection_length:
  "length (fst (z_score_detection ws thr p)) = length p"
  "length (fst (snd (z_score_detection ws thr p))) = length p"
  "length (snd (snd (z_score_detection ws thr p))) = length p"
  by (simp_all add: z_score_detection_def z_score_fold_split fold_update_length)

lemma z_score_detection_nth:
  assumes "i < length p"
  shows "fst (z_score_detection ws thr p) ! i =
           (if ws \<le> i then of_bool (abs_gt (snd (snd (z_score_body ws p i))) thr) else 0)"
    and "fst (snd (z_score_detection ws thr p)) ! i =
           (if ws \<le> i then fst (z_score_body ws p i) else Finite 0)"
    and "snd (snd (z_score_detection ws thr p)) ! i =
           (if ws \<le> i then fst (snd (z_score_body ws p i)) else Finite 0)"
  using assms
  by (simp_all add: z_score_detection_def z_score_fold_split fold_update_nth)

lemma py_slice_nth:
  "b \<le> length xs \<Longrightarrow> py_slice xs a b = map (\<lambda>k. xs ! k) [a ..< b]"
  by (rule nth_equalityI) (auto simp: py_slice_def)

lemma np_mean_spec: "w \<noteq> [] \<Longrightarrow> np_mean w = Finite (spec_mean w)"
  by (simp add: np_mean_def spec_mean_def)

lemma np_std_spec: "w \<noteq> [] \<Longrightarrow> np_std w = Finite (spec_stddev w)"
  by (simp add: np_std_def spec_stddev_def spec_mean_def)

lemma spec_window_nonempty:
  "1 \<le> ws \<Longrightarrow> ws \<le> i \<Longrightarrow> spec_window ws p i \<noteq> []"
  by (simp add: spec_window_def)

lemma spec_window_length: "ws \<le> i \<Longrightarrow> length (spec_window ws p i) = ws"
  by (simp add: spec_window_def)

lemma z_score_body_spec:
  assumes "1 \<le> ws" "ws \<le> i" "i < length p"
  shows "z_score_body ws p i =
           (Finite (spec_mean (spec_window ws p i)),
            Finite (spec_stddev (spec_window ws p i)),
            Finite (spec_zscore (p ! i) (spec_window ws p i)))"
proof -
  have w: "py_slice p (i - ws) i = spec_window ws p i"
    using assms by (simp add: py_slice_nth spec_window_def)
  have ne: "spec_window ws p i \<noteq> []"
    using assms by (simp add: spec_window_nonempty)
  show ?thesis
    by (simp add: z_score_body_def Let_def w np_mean_spec[OF ne] np_std_spec[OF ne] spec_zscore_def)
qed


lemma concat_map_if:
  "concat (map (\<lambda>i. if P i then [f i] else []) xs) = map f (filter P xs)"
  by (induction xs) simp_all

lemma build_results_filter:
  "build_results method ts ps an ms ss =
     map (\<lambda>i. \<lparr>Time = ts ! i, Close = ps ! i,
                Mean = (if method = ''zscore'' then ms ! i else NaN),
                Std = (if method = ''zscore'' then ss ! i else NaN),
                Method = method, Anomaly = True\<rparr>)
         (filter (\<lambda>i. an ! i) [0 ..< length ps])"
  unfolding build_results_def by (rule concat_map_if)

lemma zscore_flag_spec:
  assumes "1 \<le> ws" "i < length p"
  shows "(fst (z_score_detection ws thr p) ! i \<noteq> 0) = spec_flagged ws thr p i"
proof (cases "ws \<le> i")
  case True
  with assms show ?thesis
    by (simp add: z_score_detection_nth z_score_body_spec spec_flagged_def)
next
  case False
  with assms show ?thesis
    by (simp add: z_score_detection_nth spec_flagged_def)
qed

lemma detect_zscore_rows:
  assumes "1 \<le> window_size"
  shows "detect sk window_size threshold st data ''zscore'' =
     (Inr (if length data < window_size then None
           else Some (map (\<lambda>i. \<lparr>Time = fst (data ! i), Close = snd (data ! i),
                                  Mean = Finite (spec_mean (spec_window window_size (map snd data) i)),
                                  Std = Finite (spec_stddev (spec_window window_size (map snd data) i)),
                                  Method = ''zscore'', Anomaly = True\<rparr>)
                          (filter (spec_flagged window_size threshold (map snd data))
                                  [0 ..< length data]))),
      st)"
proof (cases "length data < window_size")
  case True
  then show ?thesis by (simp add: detect_def)
next
  case False
  let ?p = "map snd data"
  obtain an ms ss where z: "z_score_detection window_size threshold ?p = (an, ms, ss)"
    by (cases "z_score_detection window_size threshold ?p") auto
  have an: "an = fst (z_score_detection window_size threshold ?p)"
    and ms: "ms = fst (snd (z_score_detection window_size threshold ?p))"
    and ss: "ss = snd (snd (z_score_detection window_size threshold ?p))"
    by (simp_all add: z)
  have len: "length an = length data"
    using z_score_detection_length(1)[of window_size threshold ?p] by (simp add: z)
  have flt: "filter (\<lambda>i. map (\<lambda>a. a \<noteq> 0) an ! i) [0 ..< length ?p] =
             filter (spec_flagged window_size threshold ?p) [0 ..< length data]"
    using assms len by (auto intro!: filter_cong simp: an zscore_flag_spec)
  have rows: "map (\<lambda>i. \<lparr>Time = map fst data ! i, Close = ?p ! i,
                Mean = (if ''zscore'' = ''zscore'' then ms ! i else NaN),
                Std = (if ''zscore'' = ''zscore'' then ss ! i else NaN),
                Method = ''zscore'', Anomaly = True\<rparr>)
              (filter (spec_flagged window_size threshold ?p) [0 ..< length data]) =
        map (\<lambda>i. \<lparr>Time = fst (data ! i), Close = snd (data ! i),
                   Mean = Finite (spec_mean (spec_window window_size ?p i)),
                   Std = Finite (spec_stddev (spec_window window_size ?p i)),
                   Method = ''zscore'', Anomaly = True\<rparr>)
            (filter (spec_flagged window_size threshold ?p) [0 ..< length data])"
  proof (rule map_cong[OF refl])
    fix i assume "i \<in> set (filter (spec_flagged window_size threshold ?p) [0 ..< length data])"
    then have i: "window_size \<le> i" "i < length ?p"
      by (simp_all add: spec_flagged_def)
    then show "\<lparr>Time = map fst data ! i, Close = ?p ! i,
                Mean = (if ''zscore'' = ''zscore'' then ms ! i else NaN),
                Std = (if ''zscore'' = ''zscore'' then ss ! i else NaN),
                Method = ''zscore'', Anomaly = True\<rparr> =
               \<lparr>Time = fst (data ! i), Close = snd (data ! i),
                   Mean = Finite (spec_mean (spec_window window_size ?p i)),
                   Std = Finite (spec_stddev (spec_window window_size ?p i)),
                   Method = ''zscore'', Anomaly = True\<rparr>"
      using assms by (simp add: ms ss z_score_detection_nth z_score_body_spec)
  qed
  have "build_results ''zscore'' (map fst data) ?p (map (\<lambda>a. a \<noteq> 0) an) ms ss =
        map (\<lambda>i. \<lparr>Time = map fst data ! i, Close = ?p ! i,
                Mean = (if ''zscore'' = ''zscore'' then ms ! i else NaN),
                Std = (if ''zscore'' = ''zscore'' then ss ! i else NaN),
                Method = ''zscore'', Anomaly = True\<rparr>)
            (filter (\<lambda>i. map (\<lambda>a. a \<noteq> 0) an ! i) [0 ..< length ?p])"
    by (rule build_results_filter)
  also have "\<dots> = map (\<lambda>i. \<lparr>Time = map fst data ! i, Close = ?p ! i,
                Mean = (if ''zscore'' = ''zscore'' then ms ! i else NaN),
                Std = (if ''zscore'' = ''zscore'' then ss ! i else NaN),
                Method = ''zscore'', Anomaly = True\<rparr>)
              (filter (spec_flagged window_size threshold ?p) [0 ..< length data])"
    by (simp only: flt)
  also note rows
  finally have br: "build_results ''zscore'' (map fst data) ?p (map (\<lambda>a. a \<noteq> 0) an) ms ss =
        map (\<lambda>i. \<lparr>Time = fst (data ! i), Close = snd (data ! i),
                   Mean = Finite (spec_mean (spec_window window_size ?p i)),
                   Std = Finite (spec_stddev (spec_window window_size ?p i)),
                   Method = ''zscore'', Anomaly = True\<rparr>)
            (filter (spec_flagged window_size threshold ?p) [0 ..< length data])" .
  show ?thesis
    using False by (simp add: detect_def Let_def z br)
qed

text \<open>
  Claim C1.  With \<open>window_size \<ge> 1\<close>, the z-score path of \<open>detect\<close> returns \<open>None\<close> for a
  frame shorter than the window and otherwise exactly one row for each index \<open>i\<close> with
  \<open>window_size \<le> i < len(prices)\<close> whose z-score against the trailing window
  \<open>prices[i - window_size : i]\<close> exceeds the threshold in absolute value, in index order;
  the row carries the mean and the population standard deviation of that window, no
  index below \<open>window_size\<close> is flagged, and no other row is returned.  The detector
  state is untouched.
\<close>

theorem detect_zscore_spec:
  assumes "1 \<le> window_size"
  shows "detect sk window_size threshold st data ''zscore'' =
     (Inr (if length data < window_size then None
           else Some (map (\<lambda>i. \<lparr>Time = fst (data ! i), Close = snd (data ! i),
                                  Mean = Finite (spec_mean (spec_window window_size (map snd data) i)),
                                  Std = Finite (spec_stddev (spec_window window_size (map snd data) i)),
                                  Method = ''zscore'', Anomaly = True\<rparr>)
                          (filter (spec_flagged window_size threshold (map snd data))
                                  [0 ..< length data]))),
      st)"
  using assms by (rule detect_zscore_rows)

theorem detect_zscore_spec_witness:
  "(1::nat) \<le> 2 \<and>
   detect stub_sklearn 2 3 (fresh_detector 1) [(1, 1), (2, 3), (3, 10)] ''zscore'' =
     (Inr (Some [\<lparr>Time = 3, Close = 10, Mean = Finite 2, Std = Finite 1,
                  Method = ''zscore'', Anomaly = True\<rparr>]),
      fresh_detector 1)"
proof -
  have w: "spec_window 2 [1, 3, 10] (Suc (Suc 0)) = [1, 3]"
    by (simp add: spec_window_def upt_rec)
  have m: "spec_mean [1, 3] = 2" by (simp add: spec_mean_def)
  have s: "spec_stddev [1, 3] = 1" by (simp add: spec_stddev_def m)
  have f0: "\<not> spec_flagged 2 3 [1, 3, 10] 0"
    and f1: "\<not> spec_flagged 2 3 [1, 3, 10] (Suc 0)"
    by (simp_all add: spec_flagged_def)
  have f2: "spec_flagged 2 3 [1, 3, 10] (Suc (Suc 0))"
    by (simp add: spec_flagged_def w spec_zscore_def m s)
  show ?thesis
    using detect_zscore_spec [of 2 stub_sklearn 3 "fresh_detector 1" "[(1, 1), (2, 3), (3, 10)]"]
    by (simp add: f0 f1 f2 w m s)
qed

lemma np_std_constant:
  assumes "w \<noteq> []" and "\<forall>x \<in> set w. x = c"
  shows "np_std w = Finite 0"
proof -
  have w: "w = replicate (length w) c"
    using assms(2) by (simp add: replicate_length_same)
  have n: "real (length w) \<noteq> 0" using assms(1) by simp
  have "sum_list w = real (length w) * c"
    by (subst w) (simp add: sum_list_replicate)
  then have mean: "sum_list w / real (length w) = c" using n by simp
  have "sum_list (map (\<lambda>x. \<bar>x - c\<bar>\<^sup>2) w) = 0"
    by (subst w) (simp add: sum_list_replicate)
  then show ?thesis using assms(1) by (simp add: np_std_def mean)
qed

text \<open>
  Claim C3.  When the standard deviation of the trailing window of index \<open>i\<close> is exactly
  zero (as for a window of equal prices) and the threshold is not negative, the local
  \<open>z_score\<close> is the finite number \<open>0\<close> (no quotient by zero is formed), \<open>anomalies[i]\<close>
  stays \<open>0\<close> and, the timestamps being distinct, \<open>detect\<close> returns no row for point \<open>i\<close>,
  whatever \<open>prices[i]\<close> is.
\<close>

theorem zero_std_never_flagged:
  assumes "np_std (py_slice (map snd data) (i - window_size) i) = Finite 0"
    and "0 \<le> threshold" and "i < length data"
  shows "snd (snd (z_score_body window_size (map snd data) i)) = Finite 0 \<and>
         fst (z_score_detection window_size threshold (map snd data)) ! i = 0 \<and>
         (distinct (map fst data) \<longrightarrow>
            (\<forall>rows st'. detect sk window_size threshold st data ''zscore'' = (Inr (Some rows), st')
               \<longrightarrow> fst (data ! i) \<notin> Time ` set rows))"
proof -
  let ?p = "map snd data"
  have z: "snd (snd (z_score_body window_size ?p i)) = Finite 0"
    using assms(1) by (simp add: z_score_body_def Let_def)
  have a: "fst (z_score_detection window_size threshold ?p) ! i = 0"
    using assms(2,3) by (simp add: z_score_detection_nth z)
  have d: "fst (data ! i) \<notin> Time ` set rows"
    if dist: "distinct (map fst data)"
      and det: "detect sk window_size threshold st data ''zscore'' = (Inr (Some rows), st')"
    for rows st'
  proof
    assume "fst (data ! i) \<in> Time ` set rows"
    then obtain r where r: "r \<in> set rows" and t: "Time r = fst (data ! i)" by auto
    obtain an ms ss where zs: "z_score_detection window_size threshold ?p = (an, ms, ss)"
      by (cases "z_score_detection window_size threshold ?p") auto
    have rows: "rows = build_results ''zscore'' (map fst data) ?p (map (\<lambda>a. a \<noteq> 0) an) ms ss"
      using det by (simp add: detect_def Let_def zs split: if_splits)
    have len: "length an = length data"
      using z_score_detection_length(1)[of window_size threshold ?p] by (simp add: zs)
    from r obtain j where j: "j < length data" "map (\<lambda>a. a \<noteq> 0) an ! j"
      and rj: "Time r = map fst data ! j"
      unfolding rows build_results_filter by auto
    from rj t j(1) assms(3) have e: "map fst data ! j = map fst data ! i" by simp
    have "(map fst data ! j = map fst data ! i) = (j = i)"
      by (rule nth_eq_iff_index_eq) (simp_all add: dist j(1) assms(3))
    with e have "j = i" by simp
    with j len a zs show False by simp
  qed
  from z a d show ?thesis by blast
qed

theorem zero_std_never_flagged_witness:
  "np_std (py_slice (map snd [(1::int, 10::real), (2, 10), (3, 1000)]) (2 - 2) 2) = Finite 0 \<and>
   (0::real) \<le> 3 \<and> (2::nat) < length [(1::int, 10::real), (2, 10), (3, 1000)] \<and>
   snd (snd (z_score_body 2 (map snd [(1::int, 10::real), (2, 10), (3, 1000)]) 2)) = Finite 0 \<and>
   fst (z_score_detection 2 3 (map snd [(1::int, 10::real), (2, 10), (3, 1000)])) ! 2 = 0"
proof -
  have h: "np_std (py_slice (map snd [(1::int, 10::real), (2, 10), (3, 1000)]) (2 - 2) 2) = Finite 0"
    by (rule np_std_constant[where c = 10]) (simp_all add: py_slice_def)
  have t: "(0::real) \<le> 3" by simp
  have l: "(2::nat) < length [(1::int, 10::real), (2, 10), (3, 1000)]" by simp
  show ?thesis
    using h t l zero_std_never_flagged [OF h t l] by blast
qed

text \<open>
  Claim C9.  \<open>z_score_detection\<close> and the loop of \<open>detect_anomalies\<close> agree: at every
  evaluated index they compute the same mean, standard deviation, z-score and flag, and
  they flag the same indices.
\<close>

theorem zscore_implementations_agree:
  "map (\<lambda>pt. (dp_Mean pt, dp_Std pt, dp_Z_Score pt, dp_Anomaly pt))
       (detect_anomalies_loop window_size threshold data) =
   map (\<lambda>i. (fst (snd (z_score_detection window_size threshold (map snd data))) ! i,
              snd (snd (z_score_detection window_size threshold (map snd data))) ! i,
              snd (snd (z_score_body window_size (map snd data) i)),
              fst (z_score_detection window_size threshold (map snd data)) ! i \<noteq> 0))
       [window_size ..< length data] \<and>
   filter (\<lambda>i. fst (z_score_detection window_size threshold (map snd data)) ! i \<noteq> 0)
          [0 ..< length data] =
   filter (\<lambda>i. dp_Anomaly (detect_anomalies_body window_size threshold data i))
          [window_size ..< length data]"
proof
  let ?p = "map snd data"
  show "map (\<lambda>pt. (dp_Mean pt, dp_Std pt, dp_Z_Score pt, dp_Anomaly pt))
       (detect_anomalies_loop window_size threshold data) =
   map (\<lambda>i. (fst (snd (z_score_detection window_size threshold ?p)) ! i,
              snd (snd (z_score_detection window_size threshold ?p)) ! i,
              snd (snd (z_score_body window_size ?p i)),
              fst (z_score_detection window_size threshold ?p) ! i \<noteq> 0))
       [window_size ..< length data]"
    unfolding detect_anomalies_loop_def map_map
    by (rule map_cong[OF refl])
       (simp add: z_score_detection_nth detect_anomalies_body_def z_score_body_def Let_def)
next
  let ?p = "map snd data"
  let ?A = "\<lambda>i. fst (z_score_detection window_size threshold ?p) ! i \<noteq> 0"
  let ?B = "\<lambda>i. dp_Anomaly (detect_anomalies_body window_size threshold data i)"
  have low: "filter ?A [0 ..< min window_size (length data)] = []"
    by (simp add: filter_empty_conv z_score_detection_nth)
  have high: "filter ?A [window_size ..< length data] = filter ?B [window_size ..< length data]"
    by (rule filter_cong[OF refl])
       (simp add: z_score_detection_nth detect_anomalies_body_def z_score_body_def Let_def)
  have split: "[0 ..< length data] =
        [0 ..< min window_size (length data)] @ [window_size ..< length data]"
  proof (cases "window_size \<le> length data")
    case True
    then have "[0 ..< window_size + (length data - window_size)] =
               [0 ..< window_size] @ [window_size ..< window_size + (length data - window_size)]"
      by (intro upt_add_eq_append) simp
    with True show ?thesis by (simp add: min_def)
  next
    case False
    then show ?thesis by (simp add: min_def)
  qed
  show "filter ?A [0 ..< length data] = filter ?B [window_size ..< length data]"
    by (subst split) (simp only: filter_append low high append_Nil)
qed

lemma predict_cached_state: "snd (predict_cached sk st k p) = st"
  by (simp add: predict_cached_def split: option.splits sum.splits)

lemma predict_cached_hit:
  "models st k = Some f \<Longrightarrow>
   predict_cached sk st k p =
     (case forest_predict sk f p of Inl e \<Rightarrow> Inl e | Inr preds \<Rightarrow> Inr (outlier_flags preds), st)"
  by (simp add: predict_cached_def split: sum.splits)

lemma ifd_hit:
  assumes "window_size * 2 \<le> length p" and "models st (take window_size p) = Some f"
  shows "isolation_forest_detection sk window_size st p =
     (case forest_predict sk f p of Inl e \<Rightarrow> Inl e | Inr preds \<Rightarrow> Inr (outlier_flags preds), st)"
proof -
  have "take window_size p \<in> dom (models st)" using assms(2) by auto
  then show ?thesis
    using assms by (simp add: isolation_forest_detection_def Let_def predict_cached_hit)
qed

lemma ifd_miss:
  assumes "window_size * 2 \<le> length p" and "models st (take window_size p) = None"
  shows "fit_calls (snd (isolation_forest_detection sk window_size st p)) =
           fit_calls st @ [(0.05, take window_size p)]"
    and "models (snd (isolation_forest_detection sk window_size st p)) =
           (models st)(take window_size p \<mapsto>
              Forest 0.05 (case fst (fit sk (world st) 0.05 (take window_size p)) of
                             Inl e \<Rightarrow> None | Inr m \<Rightarrow> Some m))"
proof -
  have nd: "take window_size p \<notin> dom (models st)" using assms(2) by auto
  obtain r g where f: "fit sk (world st) (1 / 20) (take window_size p) = (r, g)"
    by (cases "fit sk (world st) (1 / 20) (take window_size p)") auto
  show "fit_calls (snd (isolation_forest_detection sk window_size st p)) =
           fit_calls st @ [(0.05, take window_size p)]"
    using assms(1) nd
    by (cases r) (simp_all add: isolation_forest_detection_def Let_def f predict_cached_state)
  show "models (snd (isolation_forest_detection sk window_size st p)) =
           (models st)(take window_size p \<mapsto>
              Forest 0.05 (case fst (fit sk (world st) 0.05 (take window_size p)) of
                             Inl e \<Rightarrow> None | Inr m \<Rightarrow> Some m))"
    using assms(1) nd
    by (cases r) (simp_all add: isolation_forest_detection_def Let_def f predict_cached_state)
qed

lemma ifd_short_state:
  "length p < window_size * 2 \<Longrightarrow> snd (isolation_forest_detection sk window_size st p) = st"
  by (simp add: isolation_forest_detection_def)

text \<open>One call keeps every cache entry and adds no fit for a key that is cached.\<close>

lemma ifd_keeps:
  assumes "models st k = Some f"
  shows "models (snd (isolation_forest_detection sk window_size st p)) k = Some f"
    and "fits_of k (snd (isolation_forest_detection sk window_size st p)) = fits_of k st"
proof -
  consider (short) "length p < window_size * 2"
    | (hit) "window_size * 2 \<le> length p" "models st (take window_size p) \<noteq> None"
    | (miss) "window_size * 2 \<le> length p" "models st (take window_size p) = None"
    by fastforce
  then have "models (snd (isolation_forest_detection sk window_size st p)) k = Some f \<and>
    fits_of k (snd (isolation_forest_detection sk window_size st p)) = fits_of k st"
  proof cases
    case short
    then show ?thesis using assms by (simp add: ifd_short_state)
  next
    case hit
    then obtain f' where "models st (take window_size p) = Some f'" by auto
    with hit(1) show ?thesis using assms by (simp add: ifd_hit)
  next
    case miss
    then have "take window_size p \<noteq> k" using assms by auto
    then show ?thesis using assms ifd_miss[OF miss] by (simp add: fits_of_def)
  qed
  then show "models (snd (isolation_forest_detection sk window_size st p)) k = Some f"
    and "fits_of k (snd (isolation_forest_detection sk window_size st p)) = fits_of k st"
    by simp_all
qed

lemma run_calls_keeps:
  "models st k = Some f \<Longrightarrow>
   models (run_calls sk window_size st qs) k = Some f \<and>
   fits_of k (run_calls sk window_size st qs) = fits_of k st"
proof (induction qs arbitrary: st)
  case Nil
  then show ?case by (simp add: run_calls_def)
next
  case (Cons q qs)
  let ?s = "snd (isolation_forest_detection sk window_size st q)"
  have m: "models ?s k = Some f" and c: "fits_of k ?s = fits_of k st"
    using Cons.prems by (rule ifd_keeps)+
  have "run_calls sk window_size st (q # qs) = run_calls sk window_size ?s qs"
    by (simp add: run_calls_def)
  with Cons.IH[OF m] c show ?case by simp
qed

text \<open>
  Claim C4.  Take two calls of the isolation detector on inputs of at least
  \<open>2 * window_size\<close> prices with the same leading \<open>window_size\<close> prices, with any calls in
  between.  After the first call the key is cached, and stays cached with the same object;
  the second call fits nothing, leaves the state as it is and predicts with the cached
  object over its whole input.  When the key was not cached, the first call makes exactly
  one fit, on the leading \<open>window_size\<close> prices with contamination 0.05, and caches the
  fitted model under the key; when it was cached, the first call changes nothing.  From the
  first call on, at most one fit with that key is made.
\<close>

theorem model_fitted_once:
  assumes "window_size * 2 \<le> length p1" and "window_size * 2 \<le> length p2"
    and "take window_size p1 = take window_size p2"
    and "st1 = snd (isolation_forest_detection sk window_size st p1)"
    and "st2 = run_calls sk window_size st1 qs"
  shows "(\<exists>f. models st1 (take window_size p1) = Some f \<and>
             models st2 (take window_size p1) = Some f \<and>
             isolation_forest_detection sk window_size st2 p2 =
               (case forest_predict sk f p2 of
                  Inl e \<Rightarrow> Inl e | Inr preds \<Rightarrow> Inr (outlier_flags preds), st2)) \<and>
         (models st (take window_size p1) = None \<longrightarrow>
           fit_calls st1 = fit_calls st @ [(0.05, take window_size p1)] \<and>
           (\<forall>m g. fit sk (world st) 0.05 (take window_size p1) = (Inr m, g) \<longrightarrow>
              models st1 (take window_size p1) = Some (Forest 0.05 (Some m)))) \<and>
         (models st (take window_size p1) \<noteq> None \<longrightarrow> st1 = st) \<and>
         fits_of (take window_size p1) (snd (isolation_forest_detection sk window_size st2 p2))
           \<le> Suc (fits_of (take window_size p1) st)"
proof -
  let ?k = "take window_size p1"
  have one: "(\<exists>f. models st1 ?k = Some f) \<and> fits_of ?k st1 \<le> Suc (fits_of ?k st)"
  proof (cases "models st ?k")
    case None
    show ?thesis
      using ifd_miss[OF assms(1) None, of sk] by (simp add: assms(4) fits_of_def)
  next
    case (Some f)
    then show ?thesis using ifd_hit[OF assms(1) Some, of sk] by (simp add: assms(4))
  qed
  then obtain f where f1: "models st1 ?k = Some f" by blast
  have f2: "models st2 ?k = Some f" and c2: "fits_of ?k st2 = fits_of ?k st1"
    using run_calls_keeps[OF f1, of sk window_size qs] by (simp_all add: assms(5))
  have f2': "models st2 (take window_size p2) = Some f" using f2 assms(3) by simp
  have call2: "isolation_forest_detection sk window_size st2 p2 =
     (case forest_predict sk f p2 of Inl e \<Rightarrow> Inl e | Inr preds \<Rightarrow> Inr (outlier_flags preds), st2)"
    by (rule ifd_hit[OF assms(2) f2'])
  have A: "\<exists>f. models st1 ?k = Some f \<and> models st2 ?k = Some f \<and>
             isolation_forest_detection sk window_size st2 p2 =
               (case forest_predict sk f p2 of
                  Inl e \<Rightarrow> Inl e | Inr preds \<Rightarrow> Inr (outlier_flags preds), st2)"
    using f1 f2 call2 by blast
  have B: "models st ?k = None \<longrightarrow>
           fit_calls st1 = fit_calls st @ [(0.05, ?k)] \<and>
           (\<forall>m g. fit sk (world st) 0.05 ?k = (Inr m, g) \<longrightarrow>
              models st1 ?k = Some (Forest 0.05 (Some m)))"
  proof
    assume n: "models st ?k = None"
    show "fit_calls st1 = fit_calls st @ [(0.05, ?k)] \<and>
           (\<forall>m g. fit sk (world st) 0.05 ?k = (Inr m, g) \<longrightarrow>
              models st1 ?k = Some (Forest 0.05 (Some m)))"
      using ifd_miss[OF assms(1) n, of sk] by (simp add: assms(4))
  qed
  have C: "models st ?k \<noteq> None \<longrightarrow> st1 = st"
  proof
    assume "models st ?k \<noteq> None"
    then obtain f' where "models st ?k = Some f'" by auto
    then show "st1 = st" using ifd_hit[OF assms(1), of st f' sk] by (simp add: assms(4))
  qed
  have D: "fits_of ?k (snd (isolation_forest_detection sk window_size st2 p2)) \<le> Suc (fits_of ?k st)"
    using call2 c2 one by simp
  from A B C D show ?thesis by blast
qed

theorem model_fitted_once_witness:
  "2 * 2 \<le> length [10, 10, 10, 10 :: real] \<and> 2 * 2 \<le> length [10, 10, 10, 500 :: real] \<and>
   take 2 [10, 10, 10, 10 :: real] = take 2 [10, 10, 10, 500] \<and>
   fit_calls (snd (isolation_forest_detection stub_sklearn 2 (fresh_detector 1) [10, 10, 10, 10])) =
     [(0.05, [10, 10])] \<and>
   models (snd (isolation_forest_detection stub_sklearn 2 (fresh_detector 1) [10, 10, 10, 10])) [10, 10] =
     Some (Forest 0.05 (Some 20)) \<and>
   fits_of [10, 10]
     (snd (isolation_forest_detection stub_sklearn 2
            (run_calls stub_sklearn 2
               (snd (isolation_forest_detection stub_sklearn 2 (fresh_detector 1) [10, 10, 10, 10]))
               [[1, 2, 3, 4]])
            [10, 10, 10, 500])) \<le> Suc 0"
proof -
  let ?st1 = "snd (isolation_forest_detection stub_sklearn 2 (fresh_detector 1) [10, 10, 10, 10])"
  have h1: "2 * 2 \<le> length [10, 10, 10, 10 :: real]" by simp
  have h2: "2 * 2 \<le> length [10, 10, 10, 500 :: real]" by simp
  have h3: "take 2 [10, 10, 10, 10 :: real] = take 2 [10, 10, 10, 500]" by simp
  have k: "take 2 [10, 10, 10, 10 :: real] = [10, 10]" by simp
  have n: "models (fresh_detector 1) [10, 10] = None" by (simp add: fresh_detector_def)
  have z: "fits_of [10, 10] (fresh_detector 1) = 0" by (simp add: fits_of_def fresh_detector_def)
  have e: "fit_calls (fresh_detector 1) = []" by (simp add: fresh_detector_def)
  have f: "fit stub_sklearn (world (fresh_detector 1)) 0.05 [10, 10] = (Inr 20, Suc 1)"
    by (simp add: stub_sklearn_def fresh_detector_def)
  note T = model_fitted_once [where sk = stub_sklearn and st = "fresh_detector 1"
      and qs = "[[1, 2, 3, 4]]", OF h1 h2 h3 refl refl, unfolded k]
  from T n have B: "fit_calls ?st1 = fit_calls (fresh_detector 1) @ [(0.05, [10, 10])]"
    and B2: "\<forall>m g. fit stub_sklearn (world (fresh_detector 1)) 0.05 [10, 10] = (Inr m, g) \<longrightarrow>
              models ?st1 [10, 10] = Some (Forest 0.05 (Some m))"
    by blast+
  from B e have B': "fit_calls ?st1 = [(0.05, [10, 10])]" by simp
  from B2 f have M: "models ?st1 [10, 10] = Some (Forest 0.05 (Some 20))" by blast
  from T have "fits_of [10, 10]
     (snd (isolation_forest_detection stub_sklearn 2
            (run_calls stub_sklearn 2 ?st1 [[1, 2, 3, 4]]) [10, 10, 10, 500]))
     \<le> Suc (fits_of [10, 10] (fresh_detector 1))"
    by blast
  then have D: "fits_of [10, 10]
     (snd (isolation_forest_detection stub_sklearn 2
            (run_calls stub_sklearn 2 ?st1 [[1, 2, 3, 4]]) [10, 10, 10, 500])) \<le> Suc 0"
    by (simp only: z)
  from h1 h2 h3 B' M D show ?thesis by blast
qed

lemma ddf_first_seen:
  "r \<in> set (drop_duplicates_from seen rs) \<Longrightarrow> find (\<lambda>x. Time x = Time r) rs = Some r"
proof (induction rs arbitrary: seen)
  case Nil
  then show ?case by simp
next
  case (Cons a rs)
  show ?case
  proof (cases "Time a \<in> set seen")
    case True
    with Cons.prems have r: "r \<in> set (drop_duplicates_from seen rs)" by simp
    then have "Time r \<notin> set seen" by (rule ddf_mem_unseen)
    with True have "Time a \<noteq> Time r" by auto
    with Cons.IH[OF r] show ?thesis by simp
  next
    case False
    with Cons.prems have "r = a \<or> r \<in> set (drop_duplicates_from (Time a # seen) rs)" by auto
    then show ?thesis
    proof
      assume "r = a" then show ?thesis by simp
    next
      assume r: "r \<in> set (drop_duplicates_from (Time a # seen) rs)"
      then have "Time r \<notin> set (Time a # seen)" by (rule ddf_mem_unseen)
      then have "Time a \<noteq> Time r" by auto
      with Cons.IH[OF r] show ?thesis by simp
    qed
  qed
qed

lemma drop_duplicates_old_new:
  assumes "distinct (map Time old)"
  shows "drop_duplicates (old @ d) = old @ drop_duplicates_from (map Time old) d"
proof -
  have "drop_duplicates_from [] old = old"
    using assms by (simp add: ddf_id)
  then show ?thesis
    unfolding drop_duplicates_def by (simp add: ddf_append)
qed

text \<open>
  Claim C2 as stated asks for a series sorted by timestamp; \<open>update_history\<close> never sorts.
  With timestamp 5 stored, merging a batch with timestamp 3 leaves 5 before 3.
\<close>

theorem update_history_unsorted:
  "update_history [''AAPL'' \<mapsto> [row_at 5 10]] ''AAPL'' (Some [row_at 3 11]) =
     Inr [''AAPL'' \<mapsto> [row_at 5 10, row_at 3 11]] \<and>
   \<not> sorted (map Time [row_at 5 10, row_at 3 11])"
  by (simp add: update_history_def drop_duplicates_def row_at_def)

text \<open>
  Claim C2, amended.  After \<open>update_history\<close> merges a non-empty batch into a stored series
  with unique timestamps, the series holds exactly the union of the stored and the new
  timestamps, each once, with the first-seen row kept, in first-seen order: the stored
  rows as they were, followed by the rows of the batch whose timestamp is new, in batch
  order.
\<close>

theorem update_history_first_seen:
  assumes "h ticker = Some old" and "distinct (map Time old)" and "d \<noteq> []"
  shows "\<exists>res. update_history h ticker (Some d) = Inr (h(ticker \<mapsto> res)) \<and>
           res = old @ drop_duplicates_from (map Time old) d \<and>
           distinct (map Time res) \<and>
           set (map Time res) = set (map Time old) \<union> set (map Time d) \<and>
           (\<forall>r \<in> set res. find (\<lambda>x. Time x = Time r) (old @ d) = Some r)"
proof -
  let ?res = "drop_duplicates (old @ d)"
  have u: "update_history h ticker (Some d) = Inr (h(ticker \<mapsto> ?res))"
    using assms(1,3) by (simp add: update_history_def)
  have e: "?res = old @ drop_duplicates_from (map Time old) d"
    using assms(2) by (rule drop_duplicates_old_new)
  have di: "distinct (map Time ?res)"
    unfolding drop_duplicates_def by (rule ddf_distinct)
  have s: "set (map Time ?res) = set (map Time old) \<union> set (map Time d)"
    unfolding drop_duplicates_def ddf_times by simp
  have f: "\<forall>r \<in> set ?res. find (\<lambda>x. Time x = Time r) (old @ d) = Some r"
    unfolding drop_duplicates_def using ddf_first_seen by blast
  from u e di s f show ?thesis by metis
qed

theorem update_history_first_seen_witness:
  "[''AAPL'' \<mapsto> [row_at 5 10]] ''AAPL'' = Some [row_at 5 10] \<and>
   distinct (map Time [row_at 5 10]) \<and> [row_at 3 11, row_at 5 99] \<noteq> [] \<and>
   (\<exists>res. update_history [''AAPL'' \<mapsto> [row_at 5 10]] ''AAPL'' (Some [row_at 3 11, row_at 5 99]) =
            Inr ([''AAPL'' \<mapsto> [row_at 5 10]](''AAPL'' \<mapsto> res)) \<and>
          res = [row_at 5 10, row_at 3 11])"
proof -
  have h1: "[''AAPL'' \<mapsto> [row_at 5 10]] ''AAPL'' = Some [row_at 5 10]" by simp
  have h2: "distinct (map Time [row_at 5 10])" by simp
  have h3: "[row_at 3 11, row_at 5 99] \<noteq> []" by simp
  have e: "[row_at 5 10] @ drop_duplicates_from (map Time [row_at 5 10]) [row_at 3 11, row_at 5 99] =
           [row_at 5 10, row_at 3 11]"
    by (simp add: row_at_def)
  note T = update_history_first_seen [where h = "[''AAPL'' \<mapsto> [row_at 5 10]]"
      and ticker = "''AAPL''" and old = "[row_at 5 10]" and d = "[row_at 3 11, row_at 5 99]",
      OF h1 h2 h3, unfolded e]
  from T h1 h2 h3 show ?thesis by blast
qed

end
